theory Spec2Isabelle
  imports Main "HOL-Library.Word"
begin

unbundle bit_operations_syntax

section \<open>Sonata GPIO and OpenTitan UART drivers\<close>

text \<open>
  The two headers \<^verbatim>\<open>platform-gpio.hh\<close> and \<^verbatim>\<open>platform-uart.hh\<close> are register
  views: a struct of 32-bit device registers and methods that read and write them.
  A register block is a record of \<open>32 word\<close> fields, a method takes the block and
  returns the value it returns together with the block it leaves behind.

  C++ gives no meaning to two of the operations the drivers use: a left shift of the
  32-bit \<^verbatim>\<open>int\<close> constant \<^verbatim>\<open>1\<close> by 32 or more, and a division by zero. The
  model does not pick a meaning either: such a call ends in \<open>Inl\<close> of the operation
  that has none.
\<close>

datatype undefined_behaviour = ShiftCountTooLarge | DivisionByZero

subsection \<open>\<^verbatim>\<open>SonataGpio<OutputMask, InputMask>\<close>\<close>

record SonataGpio =
  output_reg :: "32 word"  \<comment> \<open>the field \<^verbatim>\<open>output\<close>\<close>
  input :: "32 word"
  debouncedInput :: "32 word"
  outputEnable :: "32 word"

text \<open>
  \<^verbatim>\<open>gpio_bit(uint8_t index, uint32_t mask) { return (1 << index) & mask; }\<close>
  The index is promoted to \<^verbatim>\<open>int\<close> and the shift is done on \<^verbatim>\<open>int\<close>. For
  \<open>index < 32\<close> its bit pattern is that of the 32-bit word \<open>2 ^ index\<close> (at 31 the
  \<^verbatim>\<open>int\<close> with the sign bit alone), which the conjunction with the unsigned mask then
  reads. For an index from 32 to 255 the shift count is not less than the width of
  \<^verbatim>\<open>int\<close>, and nothing in the function keeps such an index out.
\<close>

definition gpio_bit :: "8 word \<Rightarrow> 32 word \<Rightarrow> undefined_behaviour + 32 word" where
  "gpio_bit index msk =
     (if unat index < 32 then Inr (push_bit (unat index) 1 AND msk)
      else Inl ShiftCountTooLarge)"

text \<open>The mask template parameters are the first argument of each method.\<close>

definition output_set ::
  "32 word \<Rightarrow> 8 word \<Rightarrow> bool \<Rightarrow> SonataGpio \<Rightarrow> undefined_behaviour + (bool \<times> SonataGpio)" where
  "output_set OutputMask index v s =
     (case gpio_bit index OutputMask of
        Inl ub \<Rightarrow> Inl ub
      | Inr Bit \<Rightarrow>
          Inr (Bit \<noteq> 0,
               if v then s\<lparr>output_reg := output_reg s OR Bit\<rparr>
               else s\<lparr>output_reg := output_reg s AND NOT Bit\<rparr>))"

text \<open>
  \<^verbatim>\<open>output_enable\<close>, \<^verbatim>\<open>input_get\<close> and \<^verbatim>\<open>input_debounced_get\<close> take a
  \<^verbatim>\<open>uint32_t\<close> index and hand it to the \<^verbatim>\<open>uint8_t\<close> parameter of
  \<^verbatim>\<open>gpio_bit\<close>: the conversion keeps the low eight bits (\<open>ucast\<close>).
\<close>

definition output_enable ::
  "32 word \<Rightarrow> 32 word \<Rightarrow> bool \<Rightarrow> SonataGpio \<Rightarrow> undefined_behaviour + (bool \<times> SonataGpio)" where
  "output_enable OutputMask index enable s =
     (case gpio_bit (ucast index) OutputMask of
        Inl ub \<Rightarrow> Inl ub
      | Inr Bit \<Rightarrow>
          Inr (Bit \<noteq> 0,
               if enable then s\<lparr>outputEnable := outputEnable s OR Bit\<rparr>
               else s\<lparr>outputEnable := outputEnable s AND NOT Bit\<rparr>))"

definition input_get :: "32 word \<Rightarrow> 32 word \<Rightarrow> SonataGpio \<Rightarrow> undefined_behaviour + bool" where
  "input_get InputMask index s =
     (case gpio_bit (ucast index) InputMask of
        Inl ub \<Rightarrow> Inl ub
      | Inr Bit \<Rightarrow> Inr (0 < (input s AND Bit)))"

definition input_debounced_get ::
  "32 word \<Rightarrow> 32 word \<Rightarrow> SonataGpio \<Rightarrow> undefined_behaviour + bool" where
  "input_debounced_get InputMask index s =
     (case gpio_bit (ucast index) InputMask of
        Inl ub \<Rightarrow> Inl ub
      | Inr Bit \<Rightarrow> Inr (0 < (debouncedInput s AND Bit)))"

subsection \<open>\<^verbatim>\<open>SonataGpioBoard : SonataGpio<0x000000FF, 0x0001FFFF>\<close>\<close>

definition BoardOutputMask :: "32 word" where
  "BoardOutputMask = 0x000000FF"

definition BoardInputMask :: "32 word" where
  "BoardInputMask = 0x0001FFFF"

definition FirstLED :: "32 word" where
  "FirstLED = 0"

definition LastLED :: "32 word" where
  "LastLED = 7"

definition LEDMask :: "32 word" where
  "LEDMask = push_bit 0 0xFF"

definition led_bit :: "32 word \<Rightarrow> undefined_behaviour + 32 word" where
  "led_bit index = gpio_bit (ucast (index + FirstLED)) LEDMask"

definition led_on :: "32 word \<Rightarrow> SonataGpio \<Rightarrow> undefined_behaviour + SonataGpio" where
  "led_on index s =
     (case led_bit index of
        Inl ub \<Rightarrow> Inl ub
      | Inr b \<Rightarrow> Inr (s\<lparr>output_reg := output_reg s OR b\<rparr>))"

definition led_off :: "32 word \<Rightarrow> SonataGpio \<Rightarrow> undefined_behaviour + SonataGpio" where
  "led_off index s =
     (case led_bit index of
        Inl ub \<Rightarrow> Inl ub
      | Inr b \<Rightarrow> Inr (s\<lparr>output_reg := output_reg s AND NOT b\<rparr>))"

definition led_toggle :: "32 word \<Rightarrow> SonataGpio \<Rightarrow> undefined_behaviour + SonataGpio" where
  "led_toggle index s =
     (case led_bit index of
        Inl ub \<Rightarrow> Inl ub
      | Inr b \<Rightarrow> Inr (s\<lparr>output_reg := output_reg s XOR b\<rparr>))"

definition FirstSwitch :: "32 word" where
  "FirstSwitch = 0"

definition LastSwitch :: "32 word" where
  "LastSwitch = 7"

definition SwitchMask :: "32 word" where
  "SwitchMask = push_bit 0 0xFF"

definition switch_bit :: "32 word \<Rightarrow> undefined_behaviour + 32 word" where
  "switch_bit index = gpio_bit (ucast (index + FirstSwitch)) SwitchMask"

definition read_switch :: "32 word \<Rightarrow> SonataGpio \<Rightarrow> undefined_behaviour + bool" where
  "read_switch index s =
     (case switch_bit index of
        Inl ub \<Rightarrow> Inl ub
      | Inr b \<Rightarrow> Inr (0 < (input s AND b)))"

subsection \<open>\<^verbatim>\<open>OpenTitanUart<DefaultBaudRate>\<close>\<close>

record OpenTitanUart =
  intrState :: "32 word"
  intrEnable :: "32 word"
  intrTest :: "32 word"
  alertTest :: "32 word"
  ctrl :: "32 word"
  status :: "32 word"
  rData :: "32 word"
  wData :: "32 word"
  fifoCtrl :: "32 word"
  fifoStatus :: "32 word"
  ovrd :: "32 word"
  val :: "32 word"
  timeoutCtrl :: "32 word"

definition DefaultBaudRate :: "32 word" where
  "DefaultBaudRate = 115200"

text \<open>
  \<^verbatim>\<open>CPU_TIMER_HZ\<close> is a macro of the build, not of these headers: it is the first
  argument of \<open>init\<close>, as the 64-bit value the division converts it to.
  \<^verbatim>\<open>const uint32_t NCO = ((static_cast<uint64_t>(baudRate) << 20) / CPU_TIMER_HZ);\<close>
  The shift and the division are on 64 bits, the quotient is cut to 32 bits.
\<close>

definition NCO :: "64 word \<Rightarrow> 32 word \<Rightarrow> 32 word" where
  "NCO cpu_timer_hz baudRate = ucast (push_bit 20 (ucast baudRate :: 64 word) div cpu_timer_hz)"

definition init :: "64 word \<Rightarrow> 32 word \<Rightarrow> OpenTitanUart \<Rightarrow> undefined_behaviour + OpenTitanUart" where
  "init cpu_timer_hz baudRate s =
     (if cpu_timer_hz = 0 then Inl DivisionByZero
      else Inr (s\<lparr>ctrl := push_bit 16 (NCO cpu_timer_hz baudRate) OR 3\<rparr>))"

definition can_write :: "OpenTitanUart \<Rightarrow> bool" where
  "can_write s \<longleftrightarrow> (fifoStatus s AND 0xff) < 32"

definition can_read :: "OpenTitanUart \<Rightarrow> bool" where
  "can_read s \<longleftrightarrow> 0 < (drop_bit 16 (fifoStatus s) AND 0xff)"

text \<open>
  \<^verbatim>\<open>while (!can_write()) {}  wData = byte;\<close>
  \<^verbatim>\<open>fifoStatus\<close> is a device register: every evaluation of \<^verbatim>\<open>can_write()\<close> reads it
  anew, and the device, not the driver, decides what is read. The device is the
  sequence \<open>dev\<close> of the values the register shows at the successive reads. The loop
  keeps the list of the driver's accesses to the device, oldest first. It may never
  end, so it is a partial function: \<open>None\<close> is the call that does not return.
\<close>

datatype access = ReadFifoStatus "32 word" | WriteWData "32 word"

partial_function (option)
  spin_until_can_write ::
    "(nat \<Rightarrow> 32 word) \<Rightarrow> nat \<Rightarrow> OpenTitanUart \<Rightarrow> access list \<Rightarrow> (OpenTitanUart \<times> access list) option"
where
  "spin_until_can_write dev k s tr =
     (let s' = s\<lparr>fifoStatus := dev k\<rparr>; tr' = tr @ [ReadFifoStatus (dev k)] in
      if \<not> can_write s' then spin_until_can_write dev (Suc k) s' tr'
      else Some (s', tr'))"

text \<open>
  \<open>blocking_write dev byte s\<close> is the call made when the device has been read no
  time yet; it returns the block and the accesses it made.
\<close>

definition blocking_write ::
  "(nat \<Rightarrow> 32 word) \<Rightarrow> 8 word \<Rightarrow> OpenTitanUart \<Rightarrow> (OpenTitanUart \<times> access list) option" where
  "blocking_write dev byte s =
     (case spin_until_can_write dev 0 s [] of
        None \<Rightarrow> None
      | Some (s', tr) \<Rightarrow> Some (s'\<lparr>wData := ucast byte\<rparr>, tr @ [WriteWData (ucast byte)]))"

section \<open>The bit of a pin\<close>

lemma gpio_bit_defined:
  "unat index < 32 \<Longrightarrow> gpio_bit index msk = Inr (push_bit (unat index) 1 AND msk)"
  by (simp add: gpio_bit_def)

lemma gpio_bit_Inr_iff:
  "gpio_bit index msk = Inr b \<longleftrightarrow> unat index < 32 \<and> b = push_bit (unat index) 1 AND msk"
  by (auto simp: gpio_bit_def)

lemma bit_gpio_bit:
  "gpio_bit index msk = Inr b \<Longrightarrow> bit b n \<longleftrightarrow> n = unat index \<and> bit msk n"
  by (auto simp: gpio_bit_Inr_iff bit_simps dest: bit_imp_le_length)

lemma gpio_bit_zero_iff:
  "gpio_bit index msk = Inr 0 \<longleftrightarrow> unat index < 32 \<and> \<not> bit msk (unat index)"
proof
  assume z: "gpio_bit index msk = Inr 0"
  then have "unat index < 32" by (simp add: gpio_bit_Inr_iff)
  moreover from bit_gpio_bit [OF z, of "unat index"] have "\<not> bit msk (unat index)"
    by simp
  ultimately show "unat index < 32 \<and> \<not> bit msk (unat index)" ..
next
  assume a: "unat index < 32 \<and> \<not> bit msk (unat index)"
  then obtain b where b: "gpio_bit index msk = Inr b"
    by (auto simp: gpio_bit_Inr_iff)
  have "b = 0"
    by (rule bit_eqI) (use a bit_gpio_bit [OF b] in auto)
  with b show "gpio_bit index msk = Inr 0" by simp
qed

lemma gpio_bit_nonzero:
  assumes "gpio_bit index msk = Inr b" and "b \<noteq> 0"
  shows "unat index < 32" and "bit msk (unat index)" and "b = push_bit (unat index) 1"
proof -
  from assms(1) show lt: "unat index < 32" by (simp add: gpio_bit_Inr_iff)
  show m: "bit msk (unat index)"
  proof (rule ccontr)
    assume "\<not> bit msk (unat index)"
    with lt have "gpio_bit index msk = Inr 0" by (simp add: gpio_bit_zero_iff)
    with assms show False by simp
  qed
  show "b = push_bit (unat index) 1"
    by (rule bit_eqI) (use m lt bit_gpio_bit [OF assms(1)] in \<open>auto simp: bit_simps\<close>)
qed

section \<open>\<^verbatim>\<open>output_set\<close>\<close>

text \<open>
  An index below the register width whose bit is not in \<open>OutputMask\<close>: the call returns
  false and the register block is as it was.
\<close>

lemma output_set_below_width_out_of_mask:
  assumes "unat index < 32" and "\<not> bit OutputMask (unat index)"
  shows "output_set OutputMask index v s = Inr (False, s)"
proof -
  from assms have "gpio_bit index OutputMask = Inr 0"
    by (simp add: gpio_bit_zero_iff)
  then show ?thesis by (simp add: output_set_def)
qed

text \<open>
  C3. For every index valid under \<open>OutputMask\<close> (\<^verbatim>\<open>gpio_bit(index, OutputMask)\<close> is not 0)
  and every register block, \<^verbatim>\<open>output_set(index, true)\<close> returns true and leaves the output
  register with bit \<open>index\<close> set and every other bit as before; \<^verbatim>\<open>output_set(index, false)\<close>
  returns true and leaves it with bit \<open>index\<close> clear and every other bit as before. No other
  register changes.
\<close>

theorem output_set_valid_index:
  assumes "gpio_bit index OutputMask = Inr b" and "b \<noteq> 0"
  shows "\<exists>w1 w0.
           output_set OutputMask index True s = Inr (True, s\<lparr>output_reg := w1\<rparr>)
         \<and> output_set OutputMask index False s = Inr (True, s\<lparr>output_reg := w0\<rparr>)
         \<and> unat index < 32
         \<and> (\<forall>n<32. bit w1 n \<longleftrightarrow> n = unat index \<or> bit (output_reg s) n)
         \<and> (\<forall>n<32. bit w0 n \<longleftrightarrow> n \<noteq> unat index \<and> bit (output_reg s) n)"
proof -
  note nz = gpio_bit_nonzero [OF assms]
  let ?w1 = "output_reg s OR b" and ?w0 = "output_reg s AND NOT b"
  have "output_set OutputMask index True s = Inr (True, s\<lparr>output_reg := ?w1\<rparr>)"
    and "output_set OutputMask index False s = Inr (True, s\<lparr>output_reg := ?w0\<rparr>)"
    using assms by (simp_all add: output_set_def)
  moreover have "\<forall>n<32. bit ?w1 n \<longleftrightarrow> n = unat index \<or> bit (output_reg s) n"
    using nz by (auto simp: bit_simps)
  moreover have "\<forall>n<32. bit ?w0 n \<longleftrightarrow> n \<noteq> unat index \<and> bit (output_reg s) n"
    using nz by (auto simp: bit_simps)
  ultimately show ?thesis using nz(1) by blast
qed

theorem output_set_valid_index_witness:
  "gpio_bit 2 0x0F = Inr 4 \<and> (4 :: 32 word) \<noteq> 0
   \<and> (\<exists>w1 w0.
        output_set 0x0F 2 True \<lparr>output_reg = 9, input = 0, debouncedInput = 0, outputEnable = 0\<rparr>
          = Inr (True, \<lparr>output_reg = w1, input = 0, debouncedInput = 0, outputEnable = 0\<rparr>)
      \<and> output_set 0x0F 2 False \<lparr>output_reg = 9, input = 0, debouncedInput = 0, outputEnable = 0\<rparr>
          = Inr (True, \<lparr>output_reg = w0, input = 0, debouncedInput = 0, outputEnable = 0\<rparr>)
      \<and> unat (2 :: 8 word) < 32
      \<and> (\<forall>n<32. bit w1 n \<longleftrightarrow> n = unat (2 :: 8 word) \<or> bit (9 :: 32 word) n)
      \<and> (\<forall>n<32. bit w0 n \<longleftrightarrow> n \<noteq> unat (2 :: 8 word) \<and> bit (9 :: 32 word) n))"
proof -
  have h: "gpio_bit 2 0x0F = Inr 4"
    by (simp add: gpio_bit_def)
  have nz: "(4 :: 32 word) \<noteq> 0" by simp
  from output_set_valid_index [OF h nz,
      of "\<lparr>output_reg = 9, input = 0, debouncedInput = 0, outputEnable = 0\<rparr>"]
  show ?thesis using h by simp
qed

section \<open>The named groups of the board\<close>

lemma LEDMask_eq_mask: "LEDMask = mask 8"
  by (simp add: LEDMask_def mask_eq_exp_minus_1)

lemma SwitchMask_eq_mask: "SwitchMask = mask 8"
  by (simp add: SwitchMask_def mask_eq_exp_minus_1)

lemma led_bit_Inr_iff:
  "led_bit index = Inr b \<longleftrightarrow>
     unat (ucast index :: 8 word) < 32 \<and> b = push_bit (unat (ucast index :: 8 word)) 1 AND LEDMask"
  by (auto simp: led_bit_def FirstLED_def gpio_bit_Inr_iff)

lemma switch_bit_Inr_iff:
  "switch_bit index = Inr b \<longleftrightarrow>
     unat (ucast index :: 8 word) < 32 \<and> b = push_bit (unat (ucast index :: 8 word)) 1 AND SwitchMask"
  by (auto simp: switch_bit_def FirstSwitch_def gpio_bit_Inr_iff)

lemma unat_ucast_index:
  "unat (index :: 32 word) < 256 \<Longrightarrow> unat (ucast index :: 8 word) = unat index"
  by (simp add: unsigned_ucast_eq take_bit_nat_eq_self)

lemma led_index_defined:
  assumes "index \<le> LastLED"
  shows "\<exists>b. led_bit index = Inr b"
proof -
  from assms have "unat index \<le> 7"
    by (simp add: LastLED_def word_le_nat_alt)
  then have "unat (ucast index :: 8 word) < 32"
    by (simp add: unat_ucast_index)
  then show ?thesis by (simp add: led_bit_Inr_iff)
qed

lemma or_within_mask:
  "(w OR (x AND m)) AND NOT m = w AND NOT (m :: 32 word)"
  by (rule bit_eqI) (auto simp: bit_simps)

lemma and_not_within_mask:
  "(w AND NOT (x AND m)) AND NOT m = w AND NOT (m :: 32 word)"
  by (rule bit_eqI) (auto simp: bit_simps)

lemma xor_within_mask:
  "(w XOR (x AND m)) AND NOT m = w AND NOT (m :: 32 word)"
  by (rule bit_eqI) (auto simp: bit_simps)

lemma and_through_mask:
  "w AND (x AND m) = (w AND m) AND (x :: 32 word)"
  by (rule bit_eqI) (auto simp: bit_simps)

lemma led_on_within_LEDMask:
  assumes "led_on index s = Inr s'"
  shows "output_reg s' AND NOT LEDMask = output_reg s AND NOT LEDMask"
proof -
  from assms obtain b where b: "led_bit index = Inr b" and s': "s' = s\<lparr>output_reg := output_reg s OR b\<rparr>"
    by (auto simp: led_on_def split: sum.splits)
  from b obtain x where "b = x AND LEDMask"
    by (auto simp: led_bit_Inr_iff)
  with s' have "output_reg s' = output_reg s OR (x AND LEDMask)" by simp
  then show ?thesis by (simp only: or_within_mask)
qed

lemma led_off_within_LEDMask:
  assumes "led_off index s = Inr s'"
  shows "output_reg s' AND NOT LEDMask = output_reg s AND NOT LEDMask"
proof -
  from assms obtain b where b: "led_bit index = Inr b" and s': "s' = s\<lparr>output_reg := output_reg s AND NOT b\<rparr>"
    by (auto simp: led_off_def split: sum.splits)
  from b obtain x where "b = x AND LEDMask"
    by (auto simp: led_bit_Inr_iff)
  with s' have "output_reg s' = output_reg s AND NOT (x AND LEDMask)" by simp
  then show ?thesis by (simp only: and_not_within_mask)
qed

lemma led_toggle_within_LEDMask:
  assumes "led_toggle index s = Inr s'"
  shows "output_reg s' AND NOT LEDMask = output_reg s AND NOT LEDMask"
proof -
  from assms obtain b where b: "led_bit index = Inr b" and s': "s' = s\<lparr>output_reg := output_reg s XOR b\<rparr>"
    by (auto simp: led_toggle_def split: sum.splits)
  from b obtain x where "b = x AND LEDMask"
    by (auto simp: led_bit_Inr_iff)
  with s' have "output_reg s' = output_reg s XOR (x AND LEDMask)" by simp
  then show ?thesis by (simp only: xor_within_mask)
qed

lemma read_switch_within_SwitchMask:
  assumes "input s AND SwitchMask = input t AND SwitchMask"
  shows "read_switch index s = read_switch index t"
proof (cases "switch_bit index")
  case (Inl ub)
  then show ?thesis by (simp add: read_switch_def)
next
  case (Inr b)
  then obtain x where "b = x AND SwitchMask"
    by (auto simp: switch_bit_Inr_iff)
  then have "input s AND b = input t AND b"
    using assms by (simp only: and_through_mask)
  with Inr show ?thesis by (simp add: read_switch_def)
qed

lemma bit_beyond_group:
  assumes "8 \<le> unat index" "unat index < 32"
  shows "led_bit index = Inr 0" "switch_bit index = Inr 0"
proof -
  from assms have u: "unat (ucast index :: 8 word) = unat index"
    by (simp add: unat_ucast_index)
  have "push_bit (unat index) 1 AND (mask 8 :: 32 word) = 0"
    by (rule bit_eqI) (use assms in \<open>auto simp: bit_simps\<close>)
  with u assms show "led_bit index = Inr 0" "switch_bit index = Inr 0"
    by (simp_all add: led_bit_Inr_iff switch_bit_Inr_iff LEDMask_eq_mask SwitchMask_eq_mask)
qed

lemma named_accessors_beyond_group:
  assumes "8 \<le> unat index" "unat index < 32"
  shows "led_on index s = Inr s" "led_off index s = Inr s" "led_toggle index s = Inr s"
    "read_switch index s = Inr False"
  using bit_beyond_group [OF assms]
  by (simp_all add: led_on_def led_off_def led_toggle_def read_switch_def)

lemma input_get_out_of_mask:
  assumes "unat index < 32" and "\<not> bit InputMask (unat index)"
  shows "input_get InputMask index s = Inr False"
    and "input_debounced_get InputMask index s = Inr False"
proof -
  from assms have "unat (ucast index :: 8 word) = unat index"
    by (simp add: unat_ucast_index)
  with assms have "gpio_bit (ucast index) InputMask = Inr 0"
    by (simp add: gpio_bit_zero_iff)
  then show "input_get InputMask index s = Inr False"
    and "input_debounced_get InputMask index s = Inr False"
    by (simp_all add: input_get_def input_debounced_get_def)
qed

lemma led_toggle_undone:
  assumes "led_toggle index s = Inr s'"
  shows "led_toggle index s' = Inr s"
proof -
  from assms obtain b where b: "led_bit index = Inr b"
    and s': "s' = s\<lparr>output_reg := output_reg s XOR b\<rparr>"
    by (auto simp: led_toggle_def split: sum.splits)
  have "(output_reg s XOR b) XOR b = output_reg s"
    by (simp add: xor.assoc)
  with b s' show ?thesis by (simp add: led_toggle_def)
qed

text \<open>
  C1, as stated: for some out-of-range LED or switch index the accessors \<^verbatim>\<open>led_on\<close>,
  \<^verbatim>\<open>led_off\<close>, \<^verbatim>\<open>led_toggle\<close> and \<^verbatim>\<open>read_switch\<close> change or read register bits next
  to the group, the computed bit not being masked against the group. It is not so:
  \<^verbatim>\<open>led_bit\<close> and \<^verbatim>\<open>switch_bit\<close> go through \<^verbatim>\<open>gpio_bit\<close> with \<open>LEDMask\<close> and
  \<open>SwitchMask\<close>. No index and no register block exist for which one of the three LED
  calls returns with a bit of the output register outside \<open>LEDMask\<close> changed, and none for
  which the result of \<^verbatim>\<open>read_switch\<close> depends on a bit of the input register outside
  \<open>SwitchMask\<close>.
\<close>

theorem no_index_reaches_adjacent_bits:
  "\<not> (\<exists>index s s'. (led_on index s = Inr s' \<or> led_off index s = Inr s' \<or> led_toggle index s = Inr s')
          \<and> output_reg s' AND NOT LEDMask \<noteq> output_reg s AND NOT LEDMask)
   \<and> \<not> (\<exists>index s t. input s AND SwitchMask = input t AND SwitchMask
          \<and> read_switch index s \<noteq> read_switch index t)"
  using led_on_within_LEDMask led_off_within_LEDMask led_toggle_within_LEDMask
    read_switch_within_SwitchMask
  by blast

text \<open>
  C1, amended: the named accessors mask the computed bit with \<open>LEDMask\<close> and
  \<open>SwitchMask\<close>. Whenever \<^verbatim>\<open>led_on\<close>, \<^verbatim>\<open>led_off\<close> or \<^verbatim>\<open>led_toggle\<close> returns, the bits
  of the output register outside \<open>LEDMask\<close> are as before; \<^verbatim>\<open>read_switch\<close> gives the same
  result on two register blocks whose input registers agree within \<open>SwitchMask\<close>; and for
  an out-of-range index from 8 to 31 the three LED calls leave the register block as it was
  and \<^verbatim>\<open>read_switch\<close> returns false.
\<close>

theorem named_accessors_stay_in_group:
  "(led_on index s = Inr s1 \<longrightarrow> output_reg s1 AND NOT LEDMask = output_reg s AND NOT LEDMask)
   \<and> (led_off index s = Inr s2 \<longrightarrow> output_reg s2 AND NOT LEDMask = output_reg s AND NOT LEDMask)
   \<and> (led_toggle index s = Inr s3 \<longrightarrow> output_reg s3 AND NOT LEDMask = output_reg s AND NOT LEDMask)
   \<and> (input s AND SwitchMask = input t AND SwitchMask \<longrightarrow> read_switch index s = read_switch index t)
   \<and> (8 \<le> unat index \<and> unat index < 32 \<longrightarrow>
        led_on index s = Inr s \<and> led_off index s = Inr s \<and> led_toggle index s = Inr s
        \<and> read_switch index s = Inr False)"
proof (intro conjI impI)
  assume "8 \<le> unat index \<and> unat index < 32"
  then have r: "8 \<le> unat index" "unat index < 32" by simp_all
  from r show "led_on index s = Inr s" by (rule named_accessors_beyond_group)
  from r show "led_off index s = Inr s" by (rule named_accessors_beyond_group)
  from r show "led_toggle index s = Inr s" by (rule named_accessors_beyond_group)
  from r show "read_switch index s = Inr False" by (rule named_accessors_beyond_group)
qed (fact led_on_within_LEDMask led_off_within_LEDMask led_toggle_within_LEDMask
      read_switch_within_SwitchMask)+

theorem named_accessors_stay_in_group_witness:
  "led_on 8 \<lparr>output_reg = 0, input = 0x100, debouncedInput = 0, outputEnable = 0\<rparr>
     = Inr \<lparr>output_reg = 0, input = 0x100, debouncedInput = 0, outputEnable = 0\<rparr>
   \<and> led_off 8 \<lparr>output_reg = 0, input = 0x100, debouncedInput = 0, outputEnable = 0\<rparr>
     = Inr \<lparr>output_reg = 0, input = 0x100, debouncedInput = 0, outputEnable = 0\<rparr>
   \<and> led_toggle 8 \<lparr>output_reg = 0, input = 0x100, debouncedInput = 0, outputEnable = 0\<rparr>
     = Inr \<lparr>output_reg = 0, input = 0x100, debouncedInput = 0, outputEnable = 0\<rparr>
   \<and> read_switch 8 \<lparr>output_reg = 0, input = 0x100, debouncedInput = 0, outputEnable = 0\<rparr>
     = Inr False
   \<and> read_switch 8 \<lparr>output_reg = 0, input = 0, debouncedInput = 0, outputEnable = 0\<rparr>
     = Inr False"
proof -
  let ?s = "\<lparr>output_reg = 0, input = 0x100, debouncedInput = 0, outputEnable = 0 :: 32 word\<rparr>"
  let ?t = "\<lparr>output_reg = 0, input = 0, debouncedInput = 0, outputEnable = 0 :: 32 word\<rparr>"
  have rng: "8 \<le> unat (8 :: 32 word) \<and> unat (8 :: 32 word) < 32" by simp
  have same: "input ?s AND SwitchMask = input ?t AND SwitchMask"
    by (simp add: SwitchMask_def)
  from named_accessors_stay_in_group [of 8 ?s ?s ?s ?s ?t] rng same
  have "read_switch 8 ?s = read_switch 8 ?t"
    and "led_on 8 ?s = Inr ?s \<and> led_off 8 ?s = Inr ?s \<and> led_toggle 8 ?s = Inr ?s
         \<and> read_switch 8 ?s = Inr False"
    by blast+
  then show ?thesis by simp
qed

section \<open>Indices at and beyond the register width\<close>

text \<open>
  C5. \<^verbatim>\<open>gpio_bit(index, mask)\<close> is to be \<^verbatim>\<open>(1 << index) & mask\<close> and 0 for every index
  at or beyond the 32-bit register width, the shift being defined there. The source shifts
  without a check: at index 32, the first index beyond the register, the call has no
  defined result, for every mask.
\<close>

theorem gpio_bit_at_register_width:
  "gpio_bit 32 0xFFFFFFFF = Inl ShiftCountTooLarge"
  by (simp add: gpio_bit_def)

text \<open>
  C2. \<^verbatim>\<open>output_set(index, v)\<close> is to return false and leave the output register as it
  was for every index whose bit \<^verbatim>\<open>gpio_bit(index, OutputMask)\<close> is to be 0, the indices at
  or beyond the register width among them. Bit 32 is in no mask, the full mask of
  \<^verbatim>\<open>SonataGpio<>\<close> included, yet at index 32 the shift inside \<^verbatim>\<open>gpio_bit\<close> has no
  defined result, and so neither call returns false with the register unchanged.
\<close>

theorem output_set_at_register_width:
  "\<not> bit (0xFFFFFFFF :: 32 word) 32
   \<and> output_set 0xFFFFFFFF 32 True
        \<lparr>output_reg = 0, input = 0, debouncedInput = 0, outputEnable = 0\<rparr>
       = Inl ShiftCountTooLarge
   \<and> output_set 0xFFFFFFFF 32 False
        \<lparr>output_reg = 0, input = 0, debouncedInput = 0, outputEnable = 0\<rparr>
       = Inl ShiftCountTooLarge"
proof -
  have "\<not> bit (0xFFFFFFFF :: 32 word) 32"
    using bit_imp_le_length [of "0xFFFFFFFF :: 32 word" 32] by auto
  then show ?thesis
    by (simp add: output_set_def gpio_bit_def)
qed

text \<open>
  C7. \<^verbatim>\<open>input_get(index)\<close> and \<^verbatim>\<open>input_debounced_get(index)\<close> are to return false for
  every index whose bit lies outside \<open>InputMask\<close>. Bit 256 lies outside the board's input
  mask, yet the index 256 becomes 0 on its way into the 8-bit parameter of
  \<^verbatim>\<open>gpio_bit\<close>, and both calls return true when pin 0 is high.
\<close>

theorem input_get_index_256:
  "\<not> bit BoardInputMask 256
   \<and> input_get BoardInputMask 256
        \<lparr>output_reg = 0, input = 1, debouncedInput = 1, outputEnable = 0\<rparr> = Inr True
   \<and> input_debounced_get BoardInputMask 256
        \<lparr>output_reg = 0, input = 1, debouncedInput = 1, outputEnable = 0\<rparr> = Inr True"
proof -
  have "\<not> bit BoardInputMask 256"
    using bit_imp_le_length [of BoardInputMask 256] by auto
  then show ?thesis
    by (simp add: input_get_def input_debounced_get_def BoardInputMask_def gpio_bit_def)
qed

section \<open>Toggling and framing\<close>

text \<open>
  C8. For every LED index, from \<open>FirstLED\<close> to \<open>LastLED\<close>, and every value of the output
  register, \<^verbatim>\<open>led_toggle(index)\<close> returns; and whenever \<^verbatim>\<open>led_toggle(index)\<close> returns, a
  second \<^verbatim>\<open>led_toggle(index)\<close> returns the register block, the output register in it, that
  the first one started from.
\<close>

theorem led_toggle_twice:
  "(index \<le> LastLED \<longrightarrow> (\<exists>s'. led_toggle index s = Inr s'))
   \<and> (\<forall>s'. led_toggle index s = Inr s' \<longrightarrow> led_toggle index s' = Inr s)"
proof (intro conjI impI allI)
  assume "index \<le> LastLED"
  then obtain b where "led_bit index = Inr b"
    using led_index_defined by blast
  then show "\<exists>s'. led_toggle index s = Inr s'"
    by (simp add: led_toggle_def)
next
  fix s'
  assume "led_toggle index s = Inr s'"
  then show "led_toggle index s' = Inr s"
    by (rule led_toggle_undone)
qed

theorem led_toggle_twice_witness:
  "(3 :: 32 word) \<le> LastLED
   \<and> led_toggle 3 \<lparr>output_reg = 0x21, input = 0, debouncedInput = 0, outputEnable = 0\<rparr>
       = Inr \<lparr>output_reg = 0x29, input = 0, debouncedInput = 0, outputEnable = 0\<rparr>
   \<and> led_toggle 3 \<lparr>output_reg = 0x29, input = 0, debouncedInput = 0, outputEnable = 0\<rparr>
       = Inr \<lparr>output_reg = 0x21, input = 0, debouncedInput = 0, outputEnable = 0\<rparr>"
proof -
  let ?s = "\<lparr>output_reg = 0x21, input = 0, debouncedInput = 0, outputEnable = 0 :: 32 word\<rparr>"
  let ?s' = "\<lparr>output_reg = 0x29, input = 0, debouncedInput = 0, outputEnable = 0 :: 32 word\<rparr>"
  have le: "(3 :: 32 word) \<le> LastLED" by (simp add: LastLED_def)
  have first: "led_toggle 3 ?s = Inr ?s'"
    by (simp add: led_toggle_def led_bit_def FirstLED_def LEDMask_def gpio_bit_def)
  from led_toggle_twice [of 3 ?s] first have "led_toggle 3 ?s' = Inr ?s" by blast
  with le first show ?thesis by simp
qed

text \<open>
  C10. Every mutating operation of the GPIO writes its one register: whenever
  \<^verbatim>\<open>output_set\<close>, \<^verbatim>\<open>led_on\<close>, \<^verbatim>\<open>led_off\<close> or \<^verbatim>\<open>led_toggle\<close> returns, the registers
  \<^verbatim>\<open>input\<close>, \<^verbatim>\<open>debouncedInput\<close> and \<^verbatim>\<open>outputEnable\<close> are as before, and whenever
  \<^verbatim>\<open>output_enable\<close> returns, \<^verbatim>\<open>output\<close>, \<^verbatim>\<open>input\<close> and \<^verbatim>\<open>debouncedInput\<close> are as
  before, for every index, value and register block.
\<close>

theorem gpio_mutators_frame:
  "(output_set OutputMask i v s = Inr (r, s1) \<longrightarrow>
      input s1 = input s \<and> debouncedInput s1 = debouncedInput s \<and> outputEnable s1 = outputEnable s)
   \<and> (led_on index s = Inr s2 \<longrightarrow>
      input s2 = input s \<and> debouncedInput s2 = debouncedInput s \<and> outputEnable s2 = outputEnable s)
   \<and> (led_off index s = Inr s3 \<longrightarrow>
      input s3 = input s \<and> debouncedInput s3 = debouncedInput s \<and> outputEnable s3 = outputEnable s)
   \<and> (led_toggle index s = Inr s4 \<longrightarrow>
      input s4 = input s \<and> debouncedInput s4 = debouncedInput s \<and> outputEnable s4 = outputEnable s)
   \<and> (output_enable OutputMask index enable s = Inr (r', s5) \<longrightarrow>
      output_reg s5 = output_reg s \<and> input s5 = input s \<and> debouncedInput s5 = debouncedInput s)"
  by (auto simp: output_set_def led_on_def led_off_def led_toggle_def output_enable_def
      split: sum.splits if_splits)

theorem gpio_mutators_frame_witness:
  "output_set 0x0F 2 True \<lparr>output_reg = 1, input = 2, debouncedInput = 3, outputEnable = 4\<rparr>
     = Inr (True, \<lparr>output_reg = 5, input = 2, debouncedInput = 3, outputEnable = 4\<rparr>)
   \<and> led_on 1 \<lparr>output_reg = 1, input = 2, debouncedInput = 3, outputEnable = 4\<rparr>
     = Inr \<lparr>output_reg = 3, input = 2, debouncedInput = 3, outputEnable = 4\<rparr>
   \<and> led_off 1 \<lparr>output_reg = 1, input = 2, debouncedInput = 3, outputEnable = 4\<rparr>
     = Inr \<lparr>output_reg = 1, input = 2, debouncedInput = 3, outputEnable = 4\<rparr>
   \<and> led_toggle 1 \<lparr>output_reg = 1, input = 2, debouncedInput = 3, outputEnable = 4\<rparr>
     = Inr \<lparr>output_reg = 3, input = 2, debouncedInput = 3, outputEnable = 4\<rparr>
   \<and> output_enable 0x0F 1 True \<lparr>output_reg = 1, input = 2, debouncedInput = 3, outputEnable = 4\<rparr>
     = Inr (True, \<lparr>output_reg = 1, input = 2, debouncedInput = 3, outputEnable = 6\<rparr>)
   \<and> input \<lparr>output_reg = 5, input = 2, debouncedInput = 3, outputEnable = 4 :: 32 word\<rparr> = (2 :: 32 word)
   \<and> output_reg \<lparr>output_reg = 1, input = 2, debouncedInput = 3, outputEnable = 6 :: 32 word\<rparr> = (1 :: 32 word)"
proof -
  let ?s = "\<lparr>output_reg = 1, input = 2, debouncedInput = 3, outputEnable = 4 :: 32 word\<rparr>"
  have run: "output_set 0x0F 2 True ?s
        = Inr (True, \<lparr>output_reg = 5, input = 2, debouncedInput = 3, outputEnable = 4\<rparr>)"
    "led_on 1 ?s = Inr \<lparr>output_reg = 3, input = 2, debouncedInput = 3, outputEnable = 4\<rparr>"
    "led_off 1 ?s = Inr \<lparr>output_reg = 1, input = 2, debouncedInput = 3, outputEnable = 4\<rparr>"
    "led_toggle 1 ?s = Inr \<lparr>output_reg = 3, input = 2, debouncedInput = 3, outputEnable = 4\<rparr>"
    "output_enable 0x0F 1 True ?s
        = Inr (True, \<lparr>output_reg = 1, input = 2, debouncedInput = 3, outputEnable = 6\<rparr>)"
    by (simp_all add: output_set_def output_enable_def led_on_def led_off_def led_toggle_def
        led_bit_def FirstLED_def LEDMask_def gpio_bit_def)
  from run gpio_mutators_frame [of "0x0F" 2 True ?s True
      "\<lparr>output_reg = 5, input = 2, debouncedInput = 3, outputEnable = 4\<rparr>" 1
      "\<lparr>output_reg = 3, input = 2, debouncedInput = 3, outputEnable = 4\<rparr>"
      "\<lparr>output_reg = 1, input = 2, debouncedInput = 3, outputEnable = 4\<rparr>"
      "\<lparr>output_reg = 3, input = 2, debouncedInput = 3, outputEnable = 4\<rparr>" True True
      "\<lparr>output_reg = 1, input = 2, debouncedInput = 3, outputEnable = 6\<rparr>"]
  show ?thesis by simp
qed

section \<open>The UART\<close>

lemma unat_low_byte: "unat (w AND 0xff :: 32 word) = unat w mod 256"
proof -
  have "(0xff :: 32 word) = mask 8" by (simp add: mask_eq_exp_minus_1)
  then have "w AND 0xff = take_bit 8 w" by (simp only: take_bit_eq_mask)
  moreover have "unat (take_bit 8 w) = take_bit 8 (unat w)" by (rule unsigned_take_bit_eq)
  ultimately show ?thesis by (simp add: take_bit_eq_mod)
qed

lemma can_write_level: "can_write s \<longleftrightarrow> unat (fifoStatus s) mod 256 < 32"
proof -
  have "can_write s \<longleftrightarrow> unat (fifoStatus s AND 0xff) < unat (32 :: 32 word)"
    unfolding can_write_def by (rule word_less_nat_alt)
  then show ?thesis by (simp add: unat_low_byte)
qed

text \<open>
  C6. For every value of the \<^verbatim>\<open>fifoStatus\<close> register, \<^verbatim>\<open>can_write()\<close> is true if and only
  if the transmit FIFO level, the number held in the low eight bits of the register, is
  below 32; at level 32 it is false.
\<close>

theorem can_write_below_fifo_depth:
  "(can_write s \<longleftrightarrow> unat (fifoStatus s) mod 256 < 32)
   \<and> (unat (fifoStatus s) mod 256 = 32 \<longrightarrow> \<not> can_write s)"
  by (simp add: can_write_level)

theorem can_write_below_fifo_depth_witness:
  "unat (fifoStatus \<lparr>intrState = 0, intrEnable = 0, intrTest = 0, alertTest = 0, ctrl = 0,
       status = 0, rData = 0, wData = 0, fifoCtrl = 0, fifoStatus = 0x00050020, ovrd = 0, val = 0,
       timeoutCtrl = 0 :: 32 word\<rparr>) mod 256 = 32
   \<and> \<not> can_write \<lparr>intrState = 0, intrEnable = 0, intrTest = 0, alertTest = 0, ctrl = 0,
       status = 0, rData = 0, wData = 0, fifoCtrl = 0, fifoStatus = 0x00050020, ovrd = 0, val = 0,
       timeoutCtrl = 0\<rparr>
   \<and> can_write \<lparr>intrState = 0, intrEnable = 0, intrTest = 0, alertTest = 0, ctrl = 0,
       status = 0, rData = 0, wData = 0, fifoCtrl = 0, fifoStatus = 0x00050000, ovrd = 0, val = 0,
       timeoutCtrl = 0\<rparr>"
proof -
  let ?full = "\<lparr>intrState = 0, intrEnable = 0, intrTest = 0, alertTest = 0, ctrl = 0,
       status = 0, rData = 0, wData = 0, fifoCtrl = 0, fifoStatus = 0x00050020, ovrd = 0, val = 0,
       timeoutCtrl = 0 :: 32 word\<rparr>"
  let ?empty = "\<lparr>intrState = 0, intrEnable = 0, intrTest = 0, alertTest = 0, ctrl = 0,
       status = 0, rData = 0, wData = 0, fifoCtrl = 0, fifoStatus = 0x00050000, ovrd = 0, val = 0,
       timeoutCtrl = 0 :: 32 word\<rparr>"
  have lvl: "unat (fifoStatus ?full) mod 256 = 32" by simp
  with can_write_below_fifo_depth [of ?full] have "\<not> can_write ?full" by blast
  moreover have "unat (fifoStatus ?empty) mod 256 < 32" by simp
  with can_write_below_fifo_depth [of ?empty] have "can_write ?empty" by blast
  ultimately show ?thesis using lvl by blast
qed

lemma baud_shift_exact:
  "unat (push_bit 20 (ucast (baudRate :: 32 word) :: 64 word)) = unat baudRate * 2 ^ 20"
proof -
  have "unat baudRate < 2 ^ LENGTH(32)" by (rule unsigned_less)
  then have "unat baudRate < 2 ^ 32" by simp
  then have "unat baudRate * 2 ^ 20 < 2 ^ 32 * 2 ^ 20" by simp
  then have lt: "unat baudRate * 2 ^ 20 < 2 ^ 64" by simp
  have "unat baudRate < 2 ^ 64" using \<open>unat baudRate < 2 ^ 32\<close> by simp
  then have "unat (ucast baudRate :: 64 word) = unat baudRate"
    by (simp add: unsigned_ucast_eq take_bit_nat_eq_self)
  then have "unat (push_bit 20 (ucast baudRate :: 64 word)) = unat baudRate * 2 ^ 20 mod 2 ^ 64"
    by (simp add: push_bit_eq_mult unat_word_ariths)
  also from lt have "\<dots> = unat baudRate * 2 ^ 20" by (rule mod_less)
  finally show ?thesis .
qed

lemma unat_NCO:
  "unat (NCO cpu_timer_hz baudRate) = (unat baudRate * 2 ^ 20 div unat cpu_timer_hz) mod 2 ^ 32"
  by (simp add: NCO_def unsigned_ucast_eq unat_div baud_shift_exact take_bit_eq_mod)

lemma nat_shift_or_3: "or (push_bit 16 (k :: nat)) 3 = k * 2 ^ 16 + 3"
proof -
  have three: "(3 :: nat) = mask 2" by (simp add: mask_eq_exp_minus_1)
  have "push_bit 16 k + mask 2 = or (push_bit 16 k) (mask 2 :: nat)"
    by (rule disjunctive_add) (auto simp: bit_simps)
  then show ?thesis by (simp add: three push_bit_eq_mult)
qed

lemma unat_ctrl_value:
  assumes "unat (n :: 32 word) < 2 ^ 16"
  shows "unat (push_bit 16 n OR 3) = or (push_bit 16 (unat n)) 3"
proof -
  from assms have "unat n * 2 ^ 16 < 2 ^ 16 * 2 ^ 16" by simp
  then have "push_bit 16 (unat n) < (2 :: nat) ^ 32" by (simp add: push_bit_eq_mult)
  then have "unat (push_bit 16 n) = push_bit 16 (unat n)"
    by (simp add: unsigned_push_bit_eq take_bit_nat_eq_self)
  then show ?thesis by (simp add: unsigned_or_eq)
qed

text \<open>
  C4. For every clock frequency other than 0 and every baud rate for which
  \<open>floor (baudRate * 2^20 / cpu_timer_hz)\<close> fits the sixteen bits \<^verbatim>\<open>ctrl\<close> has for it,
  \<^verbatim>\<open>init(baudRate)\<close> returns, \<open>NCO\<close> is that quotient of the natural numbers (neither the
  64-bit shift nor the cut to 32 bits loses a bit), and \<^verbatim>\<open>ctrl\<close> is left at
  \<open>(NCO << 16) | 0b11\<close>, which is \<open>NCO * 2^16 + 3\<close>; no other register changes. At
  115200 baud and 50 MHz the quotient is 2415 and \<^verbatim>\<open>ctrl\<close> is \<open>0x096F0003\<close>.
\<close>

theorem init_sets_ctrl:
  assumes "cpu_timer_hz \<noteq> 0"
    and "unat baudRate * 2 ^ 20 div unat cpu_timer_hz < 2 ^ 16"
  shows "\<exists>s'. init cpu_timer_hz baudRate s = Inr s'
           \<and> s' = s\<lparr>ctrl := ctrl s'\<rparr>
           \<and> unat (NCO cpu_timer_hz baudRate) = unat baudRate * 2 ^ 20 div unat cpu_timer_hz
           \<and> unat (ctrl s') = or (push_bit 16 (unat baudRate * 2 ^ 20 div unat cpu_timer_hz)) 3
           \<and> unat (ctrl s') = (unat baudRate * 2 ^ 20 div unat cpu_timer_hz) * 2 ^ 16 + 3"
proof -
  let ?N = "unat baudRate * 2 ^ 20 div unat cpu_timer_hz"
  from assms(2) have "?N < 2 ^ 32" by simp
  then have nco: "unat (NCO cpu_timer_hz baudRate) = ?N"
    by (simp add: unat_NCO)
  let ?s' = "s\<lparr>ctrl := push_bit 16 (NCO cpu_timer_hz baudRate) OR 3\<rparr>"
  have run: "init cpu_timer_hz baudRate s = Inr ?s'"
    using assms(1) by (simp add: init_def)
  have c: "unat (ctrl ?s') = or (push_bit 16 ?N) 3"
    using unat_ctrl_value [of "NCO cpu_timer_hz baudRate"] assms(2) nco by simp
  have "?s' = s\<lparr>ctrl := ctrl ?s'\<rparr>" by simp
  with run nco c show ?thesis
    by (metis nat_shift_or_3)
qed

theorem init_sets_ctrl_witness:
  "(50000000 :: 64 word) \<noteq> 0
   \<and> unat (115200 :: 32 word) * 2 ^ 20 div unat (50000000 :: 64 word) = 2415
   \<and> init 50000000 DefaultBaudRate
        \<lparr>intrState = 0, intrEnable = 0, intrTest = 0, alertTest = 0, ctrl = 0, status = 0,
         rData = 0, wData = 0, fifoCtrl = 0, fifoStatus = 0, ovrd = 0, val = 0, timeoutCtrl = 0\<rparr>
       = Inr \<lparr>intrState = 0, intrEnable = 0, intrTest = 0, alertTest = 0, ctrl = 0x096F0003,
              status = 0, rData = 0, wData = 0, fifoCtrl = 0, fifoStatus = 0, ovrd = 0, val = 0,
              timeoutCtrl = 0\<rparr>
   \<and> unat (0x096F0003 :: 32 word) = or (push_bit 16 2415) 3"
proof -
  let ?s = "\<lparr>intrState = 0, intrEnable = 0, intrTest = 0, alertTest = 0, ctrl = 0, status = 0,
         rData = 0, wData = 0, fifoCtrl = 0, fifoStatus = 0, ovrd = 0, val = 0, timeoutCtrl = 0 :: 32 word\<rparr>"
  have hz: "(50000000 :: 64 word) \<noteq> 0" by simp
  have n: "unat (115200 :: 32 word) * 2 ^ 20 div unat (50000000 :: 64 word) = 2415" by simp
  then have small: "unat (115200 :: 32 word) * 2 ^ 20 div unat (50000000 :: 64 word) < 2 ^ 16"
    by simp
  from init_sets_ctrl [OF hz small, of ?s] obtain s' where
    run: "init 50000000 115200 ?s = Inr s'" and fr: "s' = ?s\<lparr>ctrl := ctrl s'\<rparr>"
    and c: "unat (ctrl s') = or (push_bit 16 (unat (115200 :: 32 word) * 2 ^ 20 div unat (50000000 :: 64 word))) 3"
    by blast
  from c n have "unat (ctrl s') = unat (0x096F0003 :: 32 word)" by simp
  then have "ctrl s' = 0x096F0003" by (simp only: word_unat_eq_iff)
  with run fr hz n show ?thesis by (simp add: DefaultBaudRate_def)
qed


lemma can_write_fifoStatus_update [simp]:
  "can_write (s\<lparr>fifoStatus := w\<rparr>) \<longleftrightarrow> unat w mod 256 < 32"
  by (simp add: can_write_level)

lemma spin_returns_only_with_room:
  assumes "spin_until_can_write dev k s tr = Some r"
  shows "\<exists>j. unat (dev j) mod 256 < 32"
proof (rule spin_until_can_write.raw_induct
    [where P = "\<lambda>d _ _ _ _. \<exists>j. unat (d j) mod 256 < 32", OF _ assms])
  fix spin :: "(nat \<Rightarrow> 32 word) \<Rightarrow> nat \<Rightarrow> OpenTitanUart \<Rightarrow> access list \<Rightarrow> (OpenTitanUart \<times> access list) option"
    and d k s tr r
  assume IH: "\<And>d k s tr r. spin d k s tr = Some r \<Longrightarrow> \<exists>j. unat (d j) mod 256 < 32"
    and step: "(let s' = s\<lparr>fifoStatus := d k\<rparr>; tr' = tr @ [ReadFifoStatus (d k)] in
                if \<not> can_write s' then spin d (Suc k) s' tr' else Some (s', tr')) = Some r"
  show "\<exists>j. unat (d j) mod 256 < 32"
  proof (cases "unat (d k) mod 256 < 32")
    case True
    then show ?thesis by blast
  next
    case False
    with step have "spin d (Suc k) (s\<lparr>fifoStatus := d k\<rparr>) (tr @ [ReadFifoStatus (d k)]) = Some r"
      by (simp add: Let_def)
    then show ?thesis by (rule IH)
  qed
qed

lemma spin_never_returns:
  assumes "\<forall>k. 32 \<le> unat (dev k) mod 256"
  shows "spin_until_can_write dev k s tr = None"
proof (cases "spin_until_can_write dev k s tr")
  case None
  then show ?thesis .
next
  case (Some r)
  then obtain j where "unat (dev j) mod 256 < 32"
    using spin_returns_only_with_room by blast
  with assms show ?thesis by (simp add: not_less [symmetric])
qed

lemma spin_returns_at_first:
  assumes "\<forall>j<n. 32 \<le> unat (dev (k + j)) mod 256"
    and "unat (dev (k + n)) mod 256 < 32"
  shows "spin_until_can_write dev k s tr
           = Some (s\<lparr>fifoStatus := dev (k + n)\<rparr>,
                   tr @ map (\<lambda>j. ReadFifoStatus (dev j)) [k..<Suc (k + n)])"
  using assms
proof (induction n arbitrary: k s tr)
  case 0
  then show ?case
    by (subst spin_until_can_write.simps) (simp add: Let_def)
next
  case (Suc n)
  from Suc.prems(1) have busy: "32 \<le> unat (dev k) mod 256" by force
  have "\<forall>j<n. 32 \<le> unat (dev (Suc k + j)) mod 256"
    using Suc.prems(1) by (metis add_Suc_shift Suc_less_eq)
  moreover have "unat (dev (Suc k + n)) mod 256 < 32"
    using Suc.prems(2) by simp
  ultimately have IH: "spin_until_can_write dev (Suc k) (s\<lparr>fifoStatus := dev k\<rparr>) (tr @ [ReadFifoStatus (dev k)])
      = Some (s\<lparr>fifoStatus := dev k\<rparr>\<lparr>fifoStatus := dev (Suc k + n)\<rparr>,
              (tr @ [ReadFifoStatus (dev k)]) @ map (\<lambda>j. ReadFifoStatus (dev j)) [Suc k..<Suc (Suc k + n)])"
    by (rule Suc.IH)
  have "[k..<Suc (k + Suc n)] = k # [Suc k..<Suc (Suc k + n)]"
    by (simp add: upt_conv_Cons)
  with IH busy show ?case
    by (subst spin_until_can_write.simps) (simp add: Let_def del: upt_Suc)
qed


text \<open>
  C9. If the transmit FIFO level shown by the device is 32 or more at every read,
  \<^verbatim>\<open>blocking_write(byte)\<close> does not return. If the level is 32 or more at the first \<open>n\<close>
  reads and below 32 at the next one, the call returns after exactly these \<open>n + 1\<close> reads
  of \<^verbatim>\<open>fifoStatus\<close> followed by one write of \<open>byte\<close> to \<^verbatim>\<open>wData\<close>: no write comes before
  \<^verbatim>\<open>can_write()\<close> holds, and one write, no more, comes right after it does.
\<close>

theorem blocking_write_waits:
  "((\<forall>k. 32 \<le> unat (dev k) mod 256) \<longrightarrow> blocking_write dev byte s = None)
   \<and> ((\<forall>k<n. 32 \<le> unat (dev k) mod 256) \<and> unat (dev n) mod 256 < 32 \<longrightarrow>
        blocking_write dev byte s
          = Some (s\<lparr>fifoStatus := dev n, wData := ucast byte\<rparr>,
                  map (\<lambda>k. ReadFifoStatus (dev k)) [0..<Suc n] @ [WriteWData (ucast byte)]))"
proof (intro conjI impI)
  assume "\<forall>k. 32 \<le> unat (dev k) mod 256"
  then have "spin_until_can_write dev 0 s [] = None"
    by (rule spin_never_returns)
  then show "blocking_write dev byte s = None"
    by (simp add: blocking_write_def)
next
  assume a: "(\<forall>k<n. 32 \<le> unat (dev k) mod 256) \<and> unat (dev n) mod 256 < 32"
  have "spin_until_can_write dev 0 s []
          = Some (s\<lparr>fifoStatus := dev (0 + n)\<rparr>,
                  [] @ map (\<lambda>k. ReadFifoStatus (dev k)) [0..<Suc (0 + n)])"
    by (rule spin_returns_at_first) (use a in simp_all)
  then show "blocking_write dev byte s
          = Some (s\<lparr>fifoStatus := dev n, wData := ucast byte\<rparr>,
                  map (\<lambda>k. ReadFifoStatus (dev k)) [0..<Suc n] @ [WriteWData (ucast byte)])"
    by (simp add: blocking_write_def del: upt_Suc)
qed

theorem blocking_write_waits_witness:
  "blocking_write (\<lambda>k. 0x20) 0x41
      \<lparr>intrState = 0, intrEnable = 0, intrTest = 0, alertTest = 0, ctrl = 0, status = 0,
       rData = 0, wData = 0, fifoCtrl = 0, fifoStatus = 0, ovrd = 0, val = 0, timeoutCtrl = 0\<rparr>
     = None
   \<and> blocking_write (\<lambda>k. if k < 2 then 0x20 else 0x1F) 0x41
      \<lparr>intrState = 0, intrEnable = 0, intrTest = 0, alertTest = 0, ctrl = 0, status = 0,
       rData = 0, wData = 0, fifoCtrl = 0, fifoStatus = 0, ovrd = 0, val = 0, timeoutCtrl = 0\<rparr>
     = Some (\<lparr>intrState = 0, intrEnable = 0, intrTest = 0, alertTest = 0, ctrl = 0, status = 0,
              rData = 0, wData = 0x41, fifoCtrl = 0, fifoStatus = 0x1F, ovrd = 0, val = 0,
              timeoutCtrl = 0\<rparr>,
             [ReadFifoStatus 0x20, ReadFifoStatus 0x20, ReadFifoStatus 0x1F, WriteWData 0x41])"
proof -
  let ?s = "\<lparr>intrState = 0, intrEnable = 0, intrTest = 0, alertTest = 0, ctrl = 0, status = 0,
       rData = 0, wData = 0, fifoCtrl = 0, fifoStatus = 0, ovrd = 0, val = 0, timeoutCtrl = 0 :: 32 word\<rparr>"
  let ?full = "\<lambda>k :: nat. 0x20 :: 32 word"
  let ?drains = "\<lambda>k :: nat. if k < 2 then 0x20 else 0x1F :: 32 word"
  have never: "\<forall>k. 32 \<le> unat (?full k) mod 256" by simp
  have first: "(\<forall>k<2. 32 \<le> unat (?drains k) mod 256) \<and> unat (?drains 2) mod 256 < 32" by simp
  have idx: "[0..<3] = [0, 1, 2 :: nat]" by code_simp
  from blocking_write_waits [of ?full "0x41" ?s 2] never
  have "blocking_write ?full 0x41 ?s = None" by blast
  moreover from blocking_write_waits [of ?drains "0x41" ?s 2] first
  have "blocking_write ?drains 0x41 ?s
          = Some (?s\<lparr>fifoStatus := ?drains 2, wData := ucast (0x41 :: 8 word)\<rparr>,
                  map (\<lambda>k. ReadFifoStatus (?drains k)) [0..<Suc 2] @ [WriteWData (ucast (0x41 :: 8 word))])"
    by blast
  ultimately show ?thesis by (simp add: idx)
qed

end
